theory Spec2Isabelle
  imports Main "HOL-Library.Signed_Division"
begin

section \<open>A shallow embedding of the thread pool (threadpool.h, threadpool.cpp)\<close>

text \<open>
  Naming: the members of the C++ classes end in an underscore (\<^verbatim>\<open>resLimit_\<close>,
  \<^verbatim>\<open>taskQue_\<close>); an Isabelle constant cannot, so every member keeps its name with
  the underscore dropped. Methods keep their names, prefixed by the class where
  two classes share one.

  Granularity: every function below is one atomic section of the source, that is
  the code a thread runs between acquiring a mutex (or waking up inside a
  condition-variable wait, which re-acquires it) and the next point where it
  releases the mutex, suspends or returns. What the other threads do in between
  is the state the next section starts from.
\<close>

subsection \<open>Outcomes of a call\<close>

text \<open>
  \<^item> \<open>Returns x\<close>: the section runs to its end with result \<open>x\<close>;
  \<^item> \<open>Blocks\<close>: the calling thread suspends in \<^verbatim>\<open>cond_.wait(lock)\<close> and nothing was changed;
  \<^item> \<open>Undefined_Behaviour\<close>: the C++ standard gives the execution no meaning
    (overflow of a plain \<^verbatim>\<open>int\<close>, a null pointer dereferenced).
\<close>

datatype 'a outcome = Returns 'a | Blocks | Undefined_Behaviour

definition INT_MAX :: int where
  "INT_MAX = 2147483647"

definition INT_MIN :: int where
  "INT_MIN = - 2147483648"

subsection \<open>class Any\<close>

text \<open>
  \<^verbatim>\<open>Any\<close> owns \<^verbatim>\<open>std::unique_ptr<Base> base_\<close>, which is null (default constructed or
  moved from) or points to a \<^verbatim>\<open>Derive<T>\<close> holding the data. \<^verbatim>\<open>Result::get\<close> builds an
  \<^verbatim>\<open>Any\<close> from the literal \<^verbatim>\<open>""\<close>, a \<^verbatim>\<open>Derive<const char*>\<close>; every other payload is
  the user's, of a type \<open>'a\<close>.
\<close>

datatype 'a Derive = Derive_cstr string | Derive_data 'a

type_synonym 'a Any = "'a Derive option"

subsection \<open>class Semaphore\<close>

record Semaphore =
  isExit :: bool
  resLimit :: int

text \<open>\<^verbatim>\<open>Semaphore(int limit = 0) : resLimit_(limit), isExit_(false)\<close>\<close>

definition Semaphore_init :: "int \<Rightarrow> Semaphore" where
  "Semaphore_init limit = \<lparr>isExit = False, resLimit = limit\<rparr>"


text \<open>
  \<^verbatim>\<open>wait()\<close>: returns at once when \<^verbatim>\<open>isExit_\<close>; otherwise, under \<^verbatim>\<open>mtx_\<close>,
  \<^verbatim>\<open>while (resLimit_ <= 0) cond_.wait(lock); --resLimit_;\<close>.
  \<open>Semaphore_wait\<close> is the section from the call, \<open>Semaphore_wait_resume\<close> the one
  from a wake-up inside the loop (the exit flag is not read again there).
\<close>

definition Semaphore_wait_resume :: "Semaphore \<Rightarrow> Semaphore outcome" where
  "Semaphore_wait_resume s =
     (if resLimit s \<le> 0 then Blocks
      else Returns (s\<lparr>resLimit := resLimit s - 1\<rparr>))"

definition Semaphore_wait :: "Semaphore \<Rightarrow> Semaphore outcome" where
  "Semaphore_wait s =
     (if isExit s then Returns s
      else Semaphore_wait_resume s)"

text \<open>
  \<^verbatim>\<open>post()\<close>: returns at once when \<^verbatim>\<open>isExit_\<close>; otherwise \<^verbatim>\<open>++resLimit_\<close> under
  \<^verbatim>\<open>mtx_\<close> and \<^verbatim>\<open>cond_.notify_all()\<close>. \<^verbatim>\<open>resLimit_\<close> is a plain \<^verbatim>\<open>int\<close>: incrementing
  \<^verbatim>\<open>INT_MAX\<close> is undefined. The notification changes no data; the woken threads
  are the later \<open>Semaphore_wait_resume\<close> sections.
\<close>

definition Semaphore_post :: "Semaphore \<Rightarrow> Semaphore outcome" where
  "Semaphore_post s =
     (if isExit s then Returns s
      else if INT_MAX \<le> resLimit s then Undefined_Behaviour
      else Returns (s\<lparr>resLimit := resLimit s + 1\<rparr>))"




subsection \<open>class Result\<close>

record 'a Result =
  any :: "'a Any"
  sem :: Semaphore
  isValid :: bool

text \<open>\<^verbatim>\<open>Result(bool isValid = true) : isValid_(isValid)\<close>; \<^verbatim>\<open>any_\<close> and \<^verbatim>\<open>sem_\<close> are
  default constructed.\<close>

definition Result_init :: "bool \<Rightarrow> 'a Result" where
  "Result_init v = \<lparr>any = None, sem = Semaphore_init 0, isValid = v\<rparr>"

text \<open>
  \<^verbatim>\<open>Any Result::get()\<close>: \<^verbatim>\<open>if (!isValid_) return ""; sem_.wait(); return std::move(any_);\<close>
  The move leaves \<^verbatim>\<open>any_\<close> with a null \<^verbatim>\<open>base_\<close>. \<open>Result_get_resume\<close> is the rest of
  the call for a thread woken inside \<^verbatim>\<open>sem_.wait()\<close>.
\<close>

definition Result_get_resume :: "'a Result \<Rightarrow> ('a Any \<times> 'a Result) outcome" where
  "Result_get_resume r =
     (case Semaphore_wait_resume (sem r) of
        Returns s' \<Rightarrow> Returns (any r, r\<lparr>any := None, sem := s'\<rparr>)
      | Blocks \<Rightarrow> Blocks
      | Undefined_Behaviour \<Rightarrow> Undefined_Behaviour)"

definition Result_get :: "'a Result \<Rightarrow> ('a Any \<times> 'a Result) outcome" where
  "Result_get r =
     (if \<not> isValid r then Returns (Some (Derive_cstr ''''), r)
      else case Semaphore_wait (sem r) of
        Returns s' \<Rightarrow> Returns (any r, r\<lparr>any := None, sem := s'\<rparr>)
      | Blocks \<Rightarrow> Blocks
      | Undefined_Behaviour \<Rightarrow> Undefined_Behaviour)"

text \<open>\<^verbatim>\<open>void Result::setVal(Any any) { this->any_ = std::move(any); sem_.post(); }\<close>\<close>

definition Result_setVal :: "'a Result \<Rightarrow> 'a Any \<Rightarrow> 'a Result outcome" where
  "Result_setVal r v =
     (case Semaphore_post (sem r) of
        Returns s' \<Rightarrow> Returns (r\<lparr>any := v, sem := s'\<rparr>)
      | Blocks \<Rightarrow> Blocks
      | Undefined_Behaviour \<Rightarrow> Undefined_Behaviour)"

subsection \<open>class Task and the objects behind the shared pointers\<close>

text \<open>
  A task and its result are reached through \<^verbatim>\<open>std::shared_ptr\<close> by the submitter, the
  queue and the worker at once, so they live in a store and are named by their
  address, an index into the store. An object is never freed while it is named.
  The body \<^verbatim>\<open>run()\<close> is the user's: it returns an \<^verbatim>\<open>Any\<close> and may change the user's
  own data \<open>'w\<close>. \<^verbatim>\<open>result_\<close> is null (\<open>None\<close>) or the address of a \<^verbatim>\<open>Result\<close>.
\<close>

type_synonym addr = nat

record ('a, 'w) Task =
  run :: "'w \<Rightarrow> 'a Any \<times> 'w"
  result :: "addr option"

text \<open>\<^verbatim>\<open>generateId_\<close> is the static counter of class \<^verbatim>\<open>Thread\<close>.\<close>

record ('a, 'w) Memory =
  Tasks :: "('a, 'w) Task list"
  Results :: "'a Result list"
  generateId :: int
  user :: 'w

text \<open>\<^verbatim>\<open>void Task::setResult(std::shared_ptr<Result> res) { result_ = res; }\<close>\<close>

definition Task_setResult :: "('a, 'w) Memory \<Rightarrow> addr \<Rightarrow> addr option \<Rightarrow> ('a, 'w) Memory" where
  "Task_setResult m t res = m\<lparr>Tasks := (Tasks m)[t := (Tasks m ! t)\<lparr>result := res\<rparr>]\<rparr>"

text \<open>
  \<^verbatim>\<open>void Task::exec() { if (result_ != nullptr) { result_->setVal(run()); } }\<close>
  An address outside the store is no pointer the program can hold; the model
  gives such a call no meaning rather than read the list out of range.
\<close>

definition Task_exec :: "('a, 'w) Memory \<Rightarrow> addr \<Rightarrow> ('a, 'w) Memory outcome" where
  "Task_exec m t =
     (if length (Tasks m) \<le> t then Undefined_Behaviour
      else case result (Tasks m ! t) of
        None \<Rightarrow> Returns m
      | Some a \<Rightarrow>
          (if length (Results m) \<le> a then Undefined_Behaviour
           else case Result_setVal (Results m ! a) (fst (run (Tasks m ! t) (user m))) of
             Returns r' \<Rightarrow>
               Returns (m\<lparr>Results := (Results m)[a := r'],
                          user := snd (run (Tasks m ! t) (user m))\<rparr>)
           | Blocks \<Rightarrow> Blocks
           | Undefined_Behaviour \<Rightarrow> Undefined_Behaviour))"

subsection \<open>Machine integers of the pool\<close>

text \<open>
  The counters \<^verbatim>\<open>taskSize_\<close>, \<^verbatim>\<open>curThreadSize_\<close> and \<^verbatim>\<open>idleThreadSize_\<close> are
  \<^verbatim>\<open>std::atomic_int\<close>: their \<^verbatim>\<open>++\<close> and \<^verbatim>\<open>--\<close> wrap around in two's complement
  (\<open>int32\<close>). Where an \<^verbatim>\<open>int\<close> meets a \<^verbatim>\<open>size_t\<close> in a comparison, or is cast to one,
  it is converted modulo \<open>2 ^ 64\<close> (\<open>size_t\<close>, for a 64-bit \<^verbatim>\<open>size_t\<close>).
\<close>

definition int32 :: "int \<Rightarrow> int" where
  "int32 i = (i + 2147483648) mod 4294967296 - 2147483648"

definition size_t :: "int \<Rightarrow> nat" where
  "size_t i = nat (i mod 18446744073709551616)"

definition TASK_MAX_THRESHOLD :: int where
  "TASK_MAX_THRESHOLD = 2147483647"

definition THREAD_MAX_THRESHOLD :: int where
  "THREAD_MAX_THRESHOLD = 1024"

definition THREAD_MAX_IDLE_TIME :: int where
  "THREAD_MAX_IDLE_TIME = 60"

text \<open>
  A \<^verbatim>\<open>time_point\<close> of \<^verbatim>\<open>high_resolution_clock\<close> counts ticks, nanoseconds here;
  \<^verbatim>\<open>duration_cast<seconds>\<close> divides by the ticks of a second, rounding towards zero.
\<close>

definition ticks_per_second :: int where
  "ticks_per_second = 1000000000"

definition duration_cast_seconds :: "int \<Rightarrow> int" where
  "duration_cast_seconds d = d sdiv ticks_per_second"

subsection \<open>What a section does to the other threads\<close>

text \<open>
  A diagnostic written to \<^verbatim>\<open>std::cerr\<close>, a \<^verbatim>\<open>notify_all\<close> on one of the three
  condition variables of the pool, an operating-system thread started on
  \<^verbatim>\<open>threadFunc\<close> with a thread id. The progress messages on \<^verbatim>\<open>std::cout\<close> are left out.
\<close>

datatype cond = notFull | notEmpty | exitCond

datatype event = Cerr string | NotifyAll cond | ThreadStart int

subsection \<open>class Thread and class ThreadPool\<close>

datatype PoolMode = MODE_FIXED | MODE_CACHED

text \<open>\<^verbatim>\<open>func_\<close> of every \<^verbatim>\<open>Thread\<close> of a pool is \<^verbatim>\<open>threadFunc\<close> bound to that pool.\<close>

record Thread =
  threadId :: int

record ThreadPool =
  threads :: "int \<rightharpoonup> Thread"
  initThreadSize :: nat
  threadSizeThreshold :: int
  curThreadSize :: int
  idleThreadSize :: int
  taskQue :: "addr list"
  taskSize :: int
  taskQueMaxThreshold :: int
  poolMode :: PoolMode
  isPoolRunning :: bool

text \<open>The constructor \<^verbatim>\<open>ThreadPool::ThreadPool()\<close>.\<close>

definition ThreadPool_init :: ThreadPool where
  "ThreadPool_init =
     \<lparr>threads = Map.empty, initThreadSize = 0,
      threadSizeThreshold = THREAD_MAX_THRESHOLD,
      curThreadSize = 0, idleThreadSize = 0,
      taskQue = [], taskSize = 0,
      taskQueMaxThreshold = TASK_MAX_THRESHOLD,
      poolMode = MODE_FIXED, isPoolRunning = False\<rparr>"

definition checkRunningState :: "ThreadPool \<Rightarrow> bool" where
  "checkRunningState p = isPoolRunning p"

definition setMode :: "ThreadPool \<Rightarrow> PoolMode \<Rightarrow> event list \<times> ThreadPool" where
  "setMode p mode =
     (if checkRunningState p
      then ([Cerr ''ThreadPool is running, cannot set mode!''], p)
      else ([], p\<lparr>poolMode := mode\<rparr>))"

definition setTaskQueMaxThreshold :: "ThreadPool \<Rightarrow> int \<Rightarrow> event list \<times> ThreadPool" where
  "setTaskQueMaxThreshold p threshold =
     (if checkRunningState p
      then ([Cerr ''ThreadPool is running, cannot set task queue max threshold!''], p)
      else if threshold \<le> 0 \<or> threshold > TASK_MAX_THRESHOLD
      then ([Cerr ''Invalid task queue max threshold!''], p)
      else ([], p\<lparr>taskQueMaxThreshold := threshold\<rparr>))"

definition setThreadSizeThreshold :: "ThreadPool \<Rightarrow> int \<Rightarrow> event list \<times> ThreadPool" where
  "setThreadSizeThreshold p threshold =
     (if checkRunningState p
      then ([Cerr ''ThreadPool is running, cannot set thread size threshold!''], p)
      else if poolMode p \<noteq> MODE_CACHED
      then ([Cerr ''Thread size threshold can only be set in cached mode!''], p)
      else if threshold \<le> 0 \<or> threshold > THREAD_MAX_THRESHOLD
      then ([Cerr ''Invalid thread size threshold!''], p)
      else ([], p\<lparr>threadSizeThreshold := threshold\<rparr>))"

text \<open>\<^verbatim>\<open>unordered_map::emplace\<close> inserts only when the key is absent.\<close>

definition emplace :: "('k \<rightharpoonup> 'v) \<Rightarrow> 'k \<Rightarrow> 'v \<Rightarrow> ('k \<rightharpoonup> 'v)" where
  "emplace mp k v = (case mp k of None \<Rightarrow> mp(k \<mapsto> v) | Some _ \<Rightarrow> mp)"

text \<open>\<^verbatim>\<open>std::make_shared<Result>(v)\<close>: a new object at the next free address.\<close>

definition new_Result :: "('a, 'w) Memory \<Rightarrow> bool \<Rightarrow> ('a, 'w) Memory" where
  "new_Result m v = m\<lparr>Results := Results m @ [Result_init v]\<rparr>"

text \<open>
  The block of \<^verbatim>\<open>submitTask\<close> that creates a thread (lines 108 to 118):
  the constructor \<^verbatim>\<open>Thread(func)\<close> takes \<^verbatim>\<open>generateId_++\<close> as its id (a plain
  \<^verbatim>\<open>int\<close>), the thread is emplaced under its id, \<^verbatim>\<open>threads_[threadId]->start()\<close>
  starts whichever thread object the map holds there, and both counters go up.
\<close>

definition createThread ::
  "ThreadPool \<Rightarrow> ('a, 'w) Memory \<Rightarrow> (event list \<times> ThreadPool \<times> ('a, 'w) Memory) outcome" where
  "createThread p m =
     (if INT_MAX \<le> generateId m then Undefined_Behaviour
      else case emplace (threads p) (generateId m) \<lparr>threadId = generateId m\<rparr> (generateId m) of
        None \<Rightarrow> Undefined_Behaviour
      | Some th \<Rightarrow>
          Returns ([ThreadStart (threadId th)],
                   p\<lparr>threads := emplace (threads p) (generateId m) \<lparr>threadId = generateId m\<rparr>,
                     curThreadSize := int32 (curThreadSize p + 1),
                     idleThreadSize := int32 (idleThreadSize p + 1)\<rparr>,
                   m\<lparr>generateId := generateId m + 1\<rparr>))"

text \<open>
  \<^verbatim>\<open>submitTask(sp)\<close>, from the moment \<^verbatim>\<open>notFull_.wait_for(lock, 1s, pred)\<close> returns:
  it returns the value the predicate \<^verbatim>\<open>taskQue_.size() < (size_t)taskQueMaxThreshold_\<close>
  has then, under the mutex, which is \<open>False\<close> exactly when the queue was still full
  at the deadline. The result is the events, the address of the returned
  \<^verbatim>\<open>Result\<close>, the pool and the memory. A null \<^verbatim>\<open>sp\<close> that is admitted is
  dereferenced by \<^verbatim>\<open>sp->setResult(res)\<close>.
\<close>

definition submitTask ::
  "ThreadPool \<Rightarrow> ('a, 'w) Memory \<Rightarrow> addr option \<Rightarrow>
     (event list \<times> addr \<times> ThreadPool \<times> ('a, 'w) Memory) outcome" where
  "submitTask p m sp =
     (if \<not> length (taskQue p) < size_t (taskQueMaxThreshold p)
      then Returns ([Cerr ''Task queue is full, submit task failed!''],
                    length (Results m), p, new_Result m False)
      else case sp of
        None \<Rightarrow> Undefined_Behaviour
      | Some t \<Rightarrow>
          (if length (Tasks m) \<le> t then Undefined_Behaviour
           else case
             (if poolMode p = MODE_CACHED
                 \<and> int32 (taskSize p + 1) > idleThreadSize p
                 \<and> curThreadSize p < threadSizeThreshold p
              then createThread
                     (p\<lparr>taskQue := taskQue p @ [t], taskSize := int32 (taskSize p + 1)\<rparr>) m
              else Returns
                     ([], p\<lparr>taskQue := taskQue p @ [t], taskSize := int32 (taskSize p + 1)\<rparr>, m))
           of
             Returns (ev, p', m') \<Rightarrow>
               Returns (NotifyAll notEmpty # ev, length (Results m'), p',
                        Task_setResult (new_Result m' True) t (Some (length (Results m'))))
           | Blocks \<Rightarrow> Blocks
           | Undefined_Behaviour \<Rightarrow> Undefined_Behaviour))"

text \<open>
  \<^verbatim>\<open>start(initThreadSize)\<close>. The two loops count with an \<^verbatim>\<open>int i\<close> that is compared
  with the \<^verbatim>\<open>size_t initThreadSize_\<close>; \<^verbatim>\<open>i++\<close> at \<^verbatim>\<open>INT_MAX\<close> is undefined. The second
  loop looks the thread up by \<^verbatim>\<open>threads_[i]\<close>, the loop counter, not by its id: where
  the map has no such key, \<^verbatim>\<open>operator[]\<close> inserts a null pointer, which is
  dereferenced.
\<close>

function start_create ::
  "ThreadPool \<Rightarrow> ('a, 'w) Memory \<Rightarrow> int \<Rightarrow> (ThreadPool \<times> ('a, 'w) Memory) outcome" where
  "start_create p m i =
     (if size_t i < initThreadSize p
      then (if INT_MAX \<le> generateId m \<or> INT_MAX \<le> i then Undefined_Behaviour
            else start_create
                   (p\<lparr>threads := emplace (threads p) (generateId m) \<lparr>threadId = generateId m\<rparr>\<rparr>)
                   (m\<lparr>generateId := generateId m + 1\<rparr>) (i + 1))
      else Returns (p, m))"
  by pat_completeness auto
termination
  by (relation "measure (\<lambda>(p, m, i). nat (INT_MAX - i))") auto

declare start_create.simps [simp del]

function start_launch ::
  "ThreadPool \<Rightarrow> event list \<Rightarrow> int \<Rightarrow> (event list \<times> ThreadPool) outcome" where
  "start_launch p ev i =
     (if size_t i < initThreadSize p
      then (case threads p i of
              None \<Rightarrow> Undefined_Behaviour
            | Some th \<Rightarrow>
                (if INT_MAX \<le> i then Undefined_Behaviour
                 else start_launch (p\<lparr>idleThreadSize := int32 (idleThreadSize p + 1)\<rparr>)
                        (ev @ [ThreadStart (threadId th)]) (i + 1)))
      else Returns (ev, p))"
  by pat_completeness auto
termination
  by (relation "measure (\<lambda>(p, ev, i). nat (INT_MAX - i))") auto

declare start_launch.simps [simp del]

definition start ::
  "ThreadPool \<Rightarrow> ('a, 'w) Memory \<Rightarrow> int \<Rightarrow>
     (event list \<times> ThreadPool \<times> ('a, 'w) Memory) outcome" where
  "start p m n =
     (case start_create
             (p\<lparr>isPoolRunning := True, initThreadSize := size_t n, curThreadSize := n\<rparr>) m 0 of
        Returns (p', m') \<Rightarrow>
          (case start_launch p' [] 0 of
             Returns (ev, p'') \<Rightarrow> Returns (ev, p'', m')
           | Blocks \<Rightarrow> Blocks
           | Undefined_Behaviour \<Rightarrow> Undefined_Behaviour)
      | Blocks \<Rightarrow> Blocks
      | Undefined_Behaviour \<Rightarrow> Undefined_Behaviour)"

text \<open>
  The destructor: \<^verbatim>\<open>isPoolRunning_ = false\<close>, \<^verbatim>\<open>notEmpty_.notify_all()\<close> under the
  mutex, then \<^verbatim>\<open>exitCond_.wait(lock, curThreadSize_ == 0)\<close>, which returns once the
  predicate holds when it is evaluated.
\<close>

definition destructor_begin :: "ThreadPool \<Rightarrow> event list \<times> ThreadPool" where
  "destructor_begin p = ([NotifyAll notEmpty], p\<lparr>isPoolRunning := False\<rparr>)"

definition destructor_wait :: "ThreadPool \<Rightarrow> ThreadPool outcome" where
  "destructor_wait p = (if curThreadSize p = 0 then Returns p else Blocks)"

subsection \<open>The worker: \<^verbatim>\<open>ThreadPool::threadFunc\<close>\<close>

text \<open>
  Where a worker thread stands between two of its sections:
  \<^item> \<open>Starting\<close>: started, before line 156;
  \<^item> \<open>Fetching\<close>: about to test \<^verbatim>\<open>while (taskQue_.size() == 0)\<close> with the mutex, either
    from the top of the outer loop or woken from a wait;
  \<^item> \<open>In_wait_for\<close>: suspended in \<^verbatim>\<open>notEmpty_.wait_for(lock, 1s)\<close> (line 192);
  \<^item> \<open>In_wait\<close>: suspended in \<^verbatim>\<open>notEmpty_.wait(lock)\<close> (line 217);
  \<^item> \<open>Executing t\<close>: holds task \<open>t\<close>, mutex released, before \<^verbatim>\<open>task->exec()\<close>;
  \<^item> \<open>Executed\<close>: before \<^verbatim>\<open>++idleThreadSize_\<close> (line 246);
  \<^item> \<open>Exited_shutdown\<close>: returned at line 186; \<open>Exited_idle\<close>: returned at line 210.
\<close>

datatype pc = Starting | Fetching | In_wait_for | In_wait | Executing addr | Executed
  | Exited_shutdown | Exited_idle

record worker =
  pc :: pc
  lastTime :: int

datatype cv_status = no_timeout | timeout

text \<open>
  One section of the worker with id \<open>threadid\<close>. \<open>st\<close> is what \<^verbatim>\<open>wait_for\<close> returns
  when the section starts from it, \<open>now\<close> the clock when the section reads it.
  A queued task is never null (\<open>submitTask\<close>), so line 241 always takes the branch.
\<close>

definition threadFunc ::
  "ThreadPool \<Rightarrow> ('a, 'w) Memory \<Rightarrow> int \<Rightarrow> worker \<Rightarrow> cv_status \<Rightarrow> int \<Rightarrow>
     (event list \<times> ThreadPool \<times> ('a, 'w) Memory \<times> worker) outcome" where
  "threadFunc p m threadid w st now =
     (case pc w of
        Starting \<Rightarrow> Returns ([], p, m, w\<lparr>pc := Fetching, lastTime := now\<rparr>)
      | Fetching \<Rightarrow>
          (case taskQue p of
             [] \<Rightarrow>
               (if \<not> isPoolRunning p
                then Returns ([NotifyAll exitCond],
                              p\<lparr>threads := (threads p)(threadid := None),
                                curThreadSize := int32 (curThreadSize p - 1)\<rparr>,
                              m, w\<lparr>pc := Exited_shutdown\<rparr>)
                else if poolMode p = MODE_CACHED
                then Returns ([], p, m, w\<lparr>pc := In_wait_for\<rparr>)
                else Returns ([], p, m, w\<lparr>pc := In_wait\<rparr>))
           | task # rest \<Rightarrow>
               Returns ((if length rest > 0 then [NotifyAll notEmpty] else [])
                          @ [NotifyAll notFull],
                        p\<lparr>idleThreadSize := int32 (idleThreadSize p - 1),
                          taskQue := rest,
                          taskSize := int32 (taskSize p - 1)\<rparr>,
                        m, w\<lparr>pc := Executing task\<rparr>))
      | In_wait_for \<Rightarrow>
          (if st = timeout
           then (if duration_cast_seconds (now - lastTime w) > THREAD_MAX_IDLE_TIME
                    \<and> size_t (curThreadSize p) > initThreadSize p
                 then Returns ([],
                               p\<lparr>threads := (threads p)(threadid := None),
                                 curThreadSize := int32 (curThreadSize p - 1),
                                 idleThreadSize := int32 (idleThreadSize p - 1)\<rparr>,
                               m, w\<lparr>pc := Exited_idle\<rparr>)
                 else Returns ([], p, m, w\<lparr>pc := Fetching\<rparr>))
           else Returns ([], p, m, w\<lparr>pc := Fetching\<rparr>))
      | In_wait \<Rightarrow> Returns ([], p, m, w\<lparr>pc := Fetching\<rparr>)
      | Executing t \<Rightarrow>
          (case Task_exec m t of
             Returns m' \<Rightarrow> Returns ([], p, m', w\<lparr>pc := Executed\<rparr>)
           | Blocks \<Rightarrow> Blocks
           | Undefined_Behaviour \<Rightarrow> Undefined_Behaviour)
      | Executed \<Rightarrow>
          Returns ([], p\<lparr>idleThreadSize := int32 (idleThreadSize p + 1)\<rparr>, m,
                   w\<lparr>pc := Fetching, lastTime := now\<rparr>)
      | Exited_shutdown \<Rightarrow> Returns ([], p, m, w)
      | Exited_idle \<Rightarrow> Returns ([], p, m, w))"

subsection \<open>Histories of a pool\<close>

text \<open>
  The pool, the memory, the operating-system threads that were started (each with
  the thread id it was given and where it stands) and whether the destructor has
  begun. A history is the list of the sections that the user's threads and the
  workers run, in the order in which they take effect. Two history variables
  record what was observed: \<open>admitted\<close>, the tasks for which \<^verbatim>\<open>submitTask\<close> returned a
  valid handle, and \<open>taken\<close>, the tasks that workers took to execute, each in the
  order of the events.
\<close>

record ('a, 'w) sys =
  pool :: ThreadPool
  mem :: "('a, 'w) Memory"
  workers :: "(int \<times> worker) list"
  destroyed :: bool
  admitted :: "addr list"
  taken :: "addr list"

definition sys_init :: "('a, 'w) Memory \<Rightarrow> ('a, 'w) sys" where
  "sys_init m =
     \<lparr>pool = ThreadPool_init, mem = m, workers = [], destroyed = False,
      admitted = [], taken = []\<rparr>"

datatype call =
    Call_setMode PoolMode
  | Call_setTaskQueMaxThreshold int
  | Call_setThreadSizeThreshold int
  | Call_start int
  | Call_submitTask "addr option"
  | Call_destructor
  | Step_threadFunc nat cv_status int

fun spawn :: "event list \<Rightarrow> (int \<times> worker) list \<Rightarrow> (int \<times> worker) list" where
  "spawn [] ws = ws"
| "spawn (ThreadStart i # ev) ws = spawn ev (ws @ [(i, \<lparr>pc = Starting, lastTime = 0\<rparr>)])"
| "spawn (Cerr msg # ev) ws = spawn ev ws"
| "spawn (NotifyAll c # ev) ws = spawn ev ws"

text \<open>
  A member function called on a pool whose destructor has begun has no meaning.
  \<open>Step_threadFunc k st now\<close> is a section of the \<open>k\<close>-th started thread; it is no
  step at all when there is no such thread.
\<close>

fun sys_step :: "('a, 'w) sys \<Rightarrow> call \<Rightarrow> ('a, 'w) sys outcome" where
  "sys_step s (Call_setMode mode) =
     (if destroyed s then Undefined_Behaviour
      else Returns (s\<lparr>pool := snd (setMode (pool s) mode)\<rparr>))"
| "sys_step s (Call_setTaskQueMaxThreshold threshold) =
     (if destroyed s then Undefined_Behaviour
      else Returns (s\<lparr>pool := snd (setTaskQueMaxThreshold (pool s) threshold)\<rparr>))"
| "sys_step s (Call_setThreadSizeThreshold threshold) =
     (if destroyed s then Undefined_Behaviour
      else Returns (s\<lparr>pool := snd (setThreadSizeThreshold (pool s) threshold)\<rparr>))"
| "sys_step s (Call_start n) =
     (if destroyed s then Undefined_Behaviour
      else case start (pool s) (mem s) n of
        Returns (ev, p', m') \<Rightarrow>
          Returns (s\<lparr>pool := p', mem := m', workers := spawn ev (workers s)\<rparr>)
      | Blocks \<Rightarrow> Blocks
      | Undefined_Behaviour \<Rightarrow> Undefined_Behaviour)"
| "sys_step s (Call_submitTask sp) =
     (if destroyed s then Undefined_Behaviour
      else case submitTask (pool s) (mem s) sp of
        Returns (ev, res, p', m') \<Rightarrow>
          Returns (s\<lparr>pool := p', mem := m', workers := spawn ev (workers s),
                     admitted := admitted s @
                       (case sp of
                          None \<Rightarrow> []
                        | Some t \<Rightarrow> if isValid (Results m' ! res) then [t] else [])\<rparr>)
      | Blocks \<Rightarrow> Blocks
      | Undefined_Behaviour \<Rightarrow> Undefined_Behaviour)"
| "sys_step s Call_destructor =
     (if destroyed s then Undefined_Behaviour
      else Returns (s\<lparr>pool := snd (destructor_begin (pool s)), destroyed := True\<rparr>))"
| "sys_step s (Step_threadFunc k st now) =
     (if length (workers s) \<le> k then Returns s
      else case threadFunc (pool s) (mem s) (fst (workers s ! k)) (snd (workers s ! k)) st now of
        Returns (ev, p', m', w') \<Rightarrow>
          Returns (s\<lparr>pool := p', mem := m',
                     workers := (workers s)[k := (fst (workers s ! k), w')],
                     taken := taken s @
                       (case pc w' of
                          Executing t \<Rightarrow> if pc (snd (workers s ! k)) = Fetching then [t] else []
                        | _ \<Rightarrow> [])\<rparr>)
      | Blocks \<Rightarrow> Blocks
      | Undefined_Behaviour \<Rightarrow> Undefined_Behaviour)"

fun sys_calls :: "('a, 'w) sys \<Rightarrow> call list \<Rightarrow> ('a, 'w) sys outcome" where
  "sys_calls s [] = Returns s"
| "sys_calls s (c # cs) =
     (case sys_step s c of
        Returns s' \<Rightarrow> sys_calls s' cs
      | Blocks \<Rightarrow> sys_calls s cs
      | Undefined_Behaviour \<Rightarrow> Undefined_Behaviour)"

subsection \<open>Well-typed pools, started threads\<close>

text \<open>\<open>is_int\<close>: a value of the C++ type \<^verbatim>\<open>int\<close>. A pool is well typed when each of its
  \<^verbatim>\<open>int\<close> members holds one. \<open>started ev\<close> lists the ids of the threads that the
  events \<open>ev\<close> start.\<close>

definition is_int :: "int \<Rightarrow> bool" where
  "is_int i = (INT_MIN \<le> i \<and> i \<le> INT_MAX)"

definition ThreadPool_typed :: "ThreadPool \<Rightarrow> bool" where
  "ThreadPool_typed p =
     (is_int (threadSizeThreshold p) \<and> is_int (curThreadSize p) \<and> is_int (idleThreadSize p)
      \<and> is_int (taskSize p) \<and> is_int (taskQueMaxThreshold p))"

fun started :: "event list \<Rightarrow> int list" where
  "started [] = []"
| "started (ThreadStart i # ev) = i # started ev"
| "started (Cerr msg # ev) = started ev"
| "started (NotifyAll c # ev) = started ev"


subsection \<open>Invariants of the histories\<close>

text \<open>
  Of the queue: the counter is the length of the queue and at most \<^verbatim>\<open>INT32_MAX\<close>, the
  capacity is between 1 and \<^verbatim>\<open>INT32_MAX\<close>, and the tasks taken followed by the tasks
  queued are the tasks admitted.
\<close>

definition queue_inv :: "('a, 'w) sys \<Rightarrow> bool" where
  "queue_inv s =
     (taskSize (pool s) = int (length (taskQue (pool s)))
      \<and> taskSize (pool s) \<le> INT_MAX
      \<and> 1 \<le> taskQueMaxThreshold (pool s) \<and> taskQueMaxThreshold (pool s) \<le> INT_MAX
      \<and> taken s @ taskQue (pool s) = admitted s)"



subsection \<open>Example objects\<close>

text \<open>A task body that returns 42 and counts its runs in the user's data, and two
  memories holding one task with that body: with a valid handle attached, and
  with none.\<close>

definition answer_body :: "nat \<Rightarrow> int Any \<times> nat" where
  "answer_body n = (Some (Derive_data 42), Suc n)"

definition attached_memory :: "(int, nat) Memory" where
  "attached_memory =
     \<lparr>Tasks = [\<lparr>run = answer_body, result = Some 0\<rparr>], Results = [Result_init True],
      generateId = 0, user = 0\<rparr>"

definition detached_memory :: "(int, nat) Memory" where
  "detached_memory =
     \<lparr>Tasks = [\<lparr>run = answer_body, result = None\<rparr>], Results = [],
      generateId = 0, user = 0\<rparr>"

text \<open>A pool whose queue of capacity 1 is full, and a fresh pool set to the cached mode
  with at most 8 threads.\<close>

definition full_pool :: ThreadPool where
  "full_pool = ThreadPool_init\<lparr>taskQueMaxThreshold := 1, taskQue := [0], taskSize := 1\<rparr>"

definition cached_pool :: ThreadPool where
  "cached_pool = ThreadPool_init\<lparr>poolMode := MODE_CACHED, threadSizeThreshold := 8\<rparr>"

text \<open>
  Three histories from a fresh pool and the memory with the attached task, and the
  states they lead to: two tasks queued on a fixed pool of one worker that is
  about to fetch; the same with a queue of capacity 1, where the second
  submission is rejected; and a cached pool started with no thread, whose one
  worker was created by a submission, has executed the task and is suspended in
  the timed wait.
\<close>

definition history_open :: "call list" where
  "history_open =
     [Call_submitTask (Some 0), Call_submitTask (Some 0), Call_start 1,
      Step_threadFunc 0 no_timeout 5]"

definition state_open :: "(int, nat) sys" where
  "state_open =
     \<lparr>pool = \<lparr>threads = [0 \<mapsto> \<lparr>threadId = 0\<rparr>], initThreadSize = 1,
              threadSizeThreshold = 1024, curThreadSize = 1, idleThreadSize = 1,
              taskQue = [0, 0], taskSize = 2, taskQueMaxThreshold = 2147483647,
              poolMode = MODE_FIXED, isPoolRunning = True\<rparr>,
      mem = \<lparr>Tasks = [\<lparr>run = answer_body, result = Some 2\<rparr>],
             Results = [Result_init True, Result_init True, Result_init True],
             generateId = 1, user = 0\<rparr>,
      workers = [(0, \<lparr>pc = Fetching, lastTime = 5\<rparr>)], destroyed = False,
      admitted = [0, 0], taken = []\<rparr>"

definition history_full :: "call list" where
  "history_full =
     [Call_setTaskQueMaxThreshold 1, Call_submitTask (Some 0), Call_submitTask (Some 0),
      Call_start 1, Step_threadFunc 0 no_timeout 5]"

definition state_full :: "(int, nat) sys" where
  "state_full =
     \<lparr>pool = \<lparr>threads = [0 \<mapsto> \<lparr>threadId = 0\<rparr>], initThreadSize = 1,
              threadSizeThreshold = 1024, curThreadSize = 1, idleThreadSize = 1,
              taskQue = [0], taskSize = 1, taskQueMaxThreshold = 1,
              poolMode = MODE_FIXED, isPoolRunning = True\<rparr>,
      mem = \<lparr>Tasks = [\<lparr>run = answer_body, result = Some 1\<rparr>],
             Results = [Result_init True, Result_init True, Result_init False],
             generateId = 1, user = 0\<rparr>,
      workers = [(0, \<lparr>pc = Fetching, lastTime = 5\<rparr>)], destroyed = False,
      admitted = [0], taken = []\<rparr>"



section \<open>Properties\<close>

subsection \<open>The semaphore\<close>





subsection \<open>Result and Task\<close>




text \<open>
  Claim C3, as stated, fails: \<^verbatim>\<open>setVal\<close> on a handle constructed invalid fills
  the slot and raises the counter from 0 to 1.
\<close>

theorem setVal_on_invalid_handle_counterexample:
  "\<not> isValid (Result_init False :: int Result)
   \<and> any (Result_init False :: int Result) = None
   \<and> resLimit (sem (Result_init False :: int Result)) = 0
   \<and> Result_setVal (Result_init False) (Some (Derive_data (7::int)))
       = Returns \<lparr>any = Some (Derive_data 7), sem = \<lparr>isExit = False, resLimit = 1\<rparr>, isValid = False\<rparr>"
  by (simp add: Result_init_def Semaphore_init_def INT_MAX_def Result_setVal_def Semaphore_post_def)

text \<open>
  Claim C3, amended. \<^verbatim>\<open>setVal\<close> does not read \<^verbatim>\<open>isValid_\<close>: on an invalid handle
  (semaphore alive, counter below \<^verbatim>\<open>INT_MAX\<close>) it stores the value and increments
  the counter as on a valid one, and leaves the flag as it is; \<^verbatim>\<open>get()\<close> on the
  handle still returns the sentinel \<^verbatim>\<open>""\<close> and changes nothing.
\<close>

theorem setVal_ignores_validity:
  assumes "\<not> isValid r" and "\<not> isExit (sem r)" and "resLimit (sem r) < INT_MAX"
  shows "Result_setVal r v = Returns (r\<lparr>any := v, sem := (sem r)\<lparr>resLimit := resLimit (sem r) + 1\<rparr>\<rparr>)
    \<and> Result_get (r\<lparr>any := v, sem := (sem r)\<lparr>resLimit := resLimit (sem r) + 1\<rparr>\<rparr>)
        = Returns (Some (Derive_cstr ''''), r\<lparr>any := v, sem := (sem r)\<lparr>resLimit := resLimit (sem r) + 1\<rparr>\<rparr>)"
  using assms by (simp add: Result_setVal_def Semaphore_post_def Result_get_def)

theorem setVal_ignores_validity_witness:
  "\<not> isValid (Result_init False :: int Result)
   \<and> \<not> isExit (sem (Result_init False :: int Result))
   \<and> resLimit (sem (Result_init False :: int Result)) < INT_MAX
   \<and> Result_setVal (Result_init False) (Some (Derive_data (7::int)))
       = Returns ((Result_init False)\<lparr>any := Some (Derive_data 7),
           sem := (sem (Result_init False :: int Result))\<lparr>resLimit := resLimit (sem (Result_init False :: int Result)) + 1\<rparr>\<rparr>)"
  using setVal_ignores_validity [of "Result_init False :: int Result" "Some (Derive_data 7)"]
  by (simp add: Result_init_def Semaphore_init_def INT_MAX_def)

text \<open>
  Claim C4, as stated, fails: on a task with no handle attached \<^verbatim>\<open>exec()\<close> returns
  with the memory as it was, although a run of the body would have counted.
\<close>

theorem exec_without_handle_counterexample:
  "result (Tasks detached_memory ! 0) = None
   \<and> Task_exec detached_memory 0 = Returns detached_memory
   \<and> user detached_memory = 0
   \<and> snd (run (Tasks detached_memory ! 0) (user detached_memory)) = 1"
  by (simp add: detached_memory_def Task_exec_def answer_body_def)

text \<open>
  Claim C4, amended. \<^verbatim>\<open>exec()\<close> runs the body exactly when a handle is attached:
  with no handle it changes nothing; with a handle (semaphore alive, counter
  below \<^verbatim>\<open>INT_MAX\<close>) it runs the body once, stores the returned value in that handle
  and increments its counter, and touches no other object.
\<close>

theorem exec_runs_body_only_with_handle:
  assumes "t < length (Tasks m)"
  shows "(result (Tasks m ! t) = None \<longrightarrow> Task_exec m t = Returns m)
    \<and> (\<forall>a. result (Tasks m ! t) = Some a \<and> a < length (Results m)
            \<and> \<not> isExit (sem (Results m ! a)) \<and> resLimit (sem (Results m ! a)) < INT_MAX \<longrightarrow>
         (\<exists>m'. Task_exec m t = Returns m'
            \<and> user m' = snd (run (Tasks m ! t) (user m))
            \<and> any (Results m' ! a) = fst (run (Tasks m ! t) (user m))
            \<and> resLimit (sem (Results m' ! a)) = resLimit (sem (Results m ! a)) + 1
            \<and> isValid (Results m' ! a) = isValid (Results m ! a)
            \<and> Tasks m' = Tasks m \<and> generateId m' = generateId m
            \<and> length (Results m') = length (Results m)
            \<and> (\<forall>b. b \<noteq> a \<longrightarrow> Results m' ! b = Results m ! b)))"
  using assms
  by (auto simp: Task_exec_def Result_setVal_def Semaphore_post_def)

theorem exec_runs_body_only_with_handle_witness:
  "(0::nat) < length (Tasks detached_memory)
   \<and> result (Tasks detached_memory ! 0) = None
   \<and> Task_exec detached_memory 0 = Returns detached_memory
   \<and> 0 < length (Tasks attached_memory)
   \<and> result (Tasks attached_memory ! 0) = Some 0
   \<and> 0 < length (Results attached_memory)
   \<and> \<not> isExit (sem (Results attached_memory ! 0))
   \<and> resLimit (sem (Results attached_memory ! 0)) < INT_MAX
   \<and> Task_exec attached_memory 0
       = Returns (attached_memory\<lparr>Results :=
           [\<lparr>any = Some (Derive_data 42), sem = \<lparr>isExit = False, resLimit = 1\<rparr>, isValid = True\<rparr>],
           user := 1\<rparr>)"
  using exec_runs_body_only_with_handle [of 0 detached_memory]
    exec_runs_body_only_with_handle [of 0 attached_memory]
  by (simp add: detached_memory_def attached_memory_def Task_exec_def answer_body_def
        Result_init_def Semaphore_init_def INT_MAX_def Result_setVal_def Semaphore_post_def)

subsection \<open>Machine integers\<close>

lemma int32_id: "is_int i \<Longrightarrow> int32 i = i"
  by (simp add: is_int_def int32_def INT_MIN_def INT_MAX_def)

lemma is_int_int32: "is_int (int32 i)"
  by (simp add: is_int_def int32_def INT_MIN_def INT_MAX_def)

lemma size_t_pos: "0 \<le> i \<Longrightarrow> i \<le> INT_MAX \<Longrightarrow> size_t i = nat i"
  by (simp add: size_t_def INT_MAX_def)

subsection \<open>Submission\<close>

text \<open>
  Claim C2. When the queue is still full as the admission wait ends, \<^verbatim>\<open>submitTask\<close>
  writes its diagnostic, leaves the pool (queue and \<^verbatim>\<open>taskSize_\<close> included) as it
  was and returns a new handle that is invalid; \<^verbatim>\<open>get()\<close> on that handle returns the
  sentinel \<^verbatim>\<open>""\<close> at once and leaves the handle untouched, where a wait on its
  semaphore would have blocked. No other object changes.
\<close>

theorem submitTask_rejected_when_full:
  assumes "size_t (taskQueMaxThreshold p) \<le> length (taskQue p)"
  shows "\<exists>a m'. submitTask p m sp
            = Returns ([Cerr ''Task queue is full, submit task failed!''], a, p, m')
          \<and> a < length (Results m')
          \<and> \<not> isValid (Results m' ! a)
          \<and> Result_get (Results m' ! a) = Returns (Some (Derive_cstr ''''), Results m' ! a)
          \<and> Semaphore_wait (sem (Results m' ! a)) = Blocks
          \<and> Tasks m' = Tasks m \<and> user m' = user m
          \<and> (\<forall>b < length (Results m). Results m' ! b = Results m ! b)"
  using assms
  by (simp add: submitTask_def new_Result_def Result_get_def Result_init_def nth_append
        Semaphore_wait_def Semaphore_wait_resume_def Semaphore_init_def)

theorem submitTask_rejected_when_full_witness:
  "size_t (taskQueMaxThreshold full_pool) \<le> length (taskQue full_pool)
   \<and> submitTask full_pool attached_memory (Some 0)
       = Returns ([Cerr ''Task queue is full, submit task failed!''], 1, full_pool,
                  attached_memory\<lparr>Results := [Result_init True, Result_init False]\<rparr>)
   \<and> Result_get (Result_init False :: int Result)
       = Returns (Some (Derive_cstr ''''), Result_init False)"
  using submitTask_rejected_when_full [of full_pool attached_memory "Some 0"]
  by (simp add: full_pool_def ThreadPool_init_def size_t_def submitTask_def new_Result_def
        attached_memory_def Result_get_def Result_init_def)

lemma createThread_Returns:
  assumes "createThread p m = Returns (ev, p', m')"
  shows "length (started ev) = 1
     \<and> p' = p\<lparr>threads := emplace (threads p) (generateId m) \<lparr>threadId = generateId m\<rparr>,
               curThreadSize := int32 (curThreadSize p + 1),
               idleThreadSize := int32 (idleThreadSize p + 1)\<rparr>
     \<and> m' = m\<lparr>generateId := generateId m + 1\<rparr>"
  using assms
  by (auto simp: createThread_def split: if_splits option.splits)

lemma submitTask_admitted:
  assumes "length (taskQue p) < size_t (taskQueMaxThreshold p)"
    and "submitTask p m sp = Returns (ev, res, p', m')"
  shows "\<exists>t ev1 m1. sp = Some t \<and> t < length (Tasks m)
      \<and> (if poolMode p = MODE_CACHED \<and> int32 (taskSize p + 1) > idleThreadSize p
              \<and> curThreadSize p < threadSizeThreshold p
          then createThread (p\<lparr>taskQue := taskQue p @ [t], taskSize := int32 (taskSize p + 1)\<rparr>) m
                 = Returns (ev1, p', m1)
          else ev1 = [] \<and> m1 = m
             \<and> p' = p\<lparr>taskQue := taskQue p @ [t], taskSize := int32 (taskSize p + 1)\<rparr>)
      \<and> ev = NotifyAll notEmpty # ev1 \<and> res = length (Results m1)
      \<and> m' = Task_setResult (new_Result m1 True) t (Some (length (Results m1)))"
  using assms
  by (auto simp: submitTask_def split: option.splits if_splits outcome.splits)

text \<open>
  Claim C6. On a well-typed pool, a \<^verbatim>\<open>submitTask\<close> that admits its task starts a
  thread if and only if the mode is \<^verbatim>\<open>MODE_CACHED\<close>, the incremented \<^verbatim>\<open>taskSize_\<close>
  exceeds \<^verbatim>\<open>idleThreadSize_\<close> and \<^verbatim>\<open>curThreadSize_\<close> is below \<^verbatim>\<open>threadSizeThreshold_\<close>;
  it then starts exactly one, emplaced under the next thread id, and both
  counters go up by one (\<^verbatim>\<open>idleThreadSize_\<close> wraps at \<^verbatim>\<open>INT_MAX\<close>); otherwise the
  threads and the counters stay. A rejected \<^verbatim>\<open>submitTask\<close> changes nothing. So
  every \<^verbatim>\<open>submitTask\<close> preserves \<^verbatim>\<open>curThreadSize_ <= threadSizeThreshold_\<close>.
\<close>

theorem submitTask_grows_by_one_worker:
  assumes "ThreadPool_typed p"
    and "submitTask p m sp = Returns (ev, res, p', m')"
  shows "(length (taskQue p) < size_t (taskQueMaxThreshold p) \<longrightarrow>
            taskSize p' = int32 (taskSize p + 1)
          \<and> (started ev \<noteq> [] \<longleftrightarrow>
               poolMode p = MODE_CACHED \<and> taskSize p' > idleThreadSize p
               \<and> curThreadSize p < threadSizeThreshold p)
          \<and> (started ev \<noteq> [] \<longrightarrow>
               length (started ev) = 1
               \<and> threads p' = emplace (threads p) (generateId m) \<lparr>threadId = generateId m\<rparr>
               \<and> curThreadSize p' = curThreadSize p + 1
               \<and> (idleThreadSize p < INT_MAX \<longrightarrow> idleThreadSize p' = idleThreadSize p + 1))
          \<and> (started ev = [] \<longrightarrow>
               threads p' = threads p \<and> curThreadSize p' = curThreadSize p
               \<and> idleThreadSize p' = idleThreadSize p))
     \<and> (\<not> length (taskQue p) < size_t (taskQueMaxThreshold p) \<longrightarrow> started ev = [] \<and> p' = p)
     \<and> threadSizeThreshold p' = threadSizeThreshold p
     \<and> (curThreadSize p \<le> threadSizeThreshold p \<longrightarrow> curThreadSize p' \<le> threadSizeThreshold p')"
proof (cases "length (taskQue p) < size_t (taskQueMaxThreshold p)")
  case False
  with assms(2) show ?thesis by (auto simp: submitTask_def)
next
  case adm: True
  from assms(1) have ty: "is_int (curThreadSize p)" "is_int (threadSizeThreshold p)"
      "is_int (idleThreadSize p)"
    by (simp_all add: ThreadPool_typed_def)
  from submitTask_admitted [OF adm assms(2)] obtain t ev1 m1 where
      br: "if poolMode p = MODE_CACHED \<and> int32 (taskSize p + 1) > idleThreadSize p
              \<and> curThreadSize p < threadSizeThreshold p
          then createThread (p\<lparr>taskQue := taskQue p @ [t], taskSize := int32 (taskSize p + 1)\<rparr>) m
                 = Returns (ev1, p', m1)
          else ev1 = [] \<and> m1 = m
             \<and> p' = p\<lparr>taskQue := taskQue p @ [t], taskSize := int32 (taskSize p + 1)\<rparr>"
      and ev: "ev = NotifyAll notEmpty # ev1"
    by blast
  show ?thesis
  proof (cases "poolMode p = MODE_CACHED \<and> int32 (taskSize p + 1) > idleThreadSize p
              \<and> curThreadSize p < threadSizeThreshold p")
    case g: True
    with br have c: "createThread
        (p\<lparr>taskQue := taskQue p @ [t], taskSize := int32 (taskSize p + 1)\<rparr>) m
          = Returns (ev1, p', m1)"
      by simp
    note f = createThread_Returns [OF c]
    from g ty have cur: "int32 (curThreadSize p + 1) = curThreadSize p + 1"
      by (intro int32_id) (simp add: is_int_def)
    have idle: "idleThreadSize p < INT_MAX \<Longrightarrow> int32 (idleThreadSize p + 1) = idleThreadSize p + 1"
      using ty by (intro int32_id) (simp add: is_int_def)
    from f have p': "p' = p\<lparr>taskQue := taskQue p @ [t], taskSize := int32 (taskSize p + 1),
        threads := emplace (threads p) (generateId m) \<lparr>threadId = generateId m\<rparr>,
        curThreadSize := int32 (curThreadSize p + 1),
        idleThreadSize := int32 (idleThreadSize p + 1)\<rparr>"
      by simp
    from f ev have st: "length (started ev) = 1"
      by simp
    then have ne: "started ev \<noteq> []"
      by auto
    show ?thesis
      unfolding p' using g cur idle adm st ne by simp
  next
    case False
    with br adm ev show ?thesis
      by auto
  qed
qed

theorem submitTask_grows_by_one_worker_witness:
  "ThreadPool_typed cached_pool
   \<and> submitTask cached_pool attached_memory (Some 0)
       = Returns ([NotifyAll notEmpty, ThreadStart 0], 1,
           cached_pool\<lparr>threads := [0 \<mapsto> \<lparr>threadId = 0\<rparr>], curThreadSize := 1, idleThreadSize := 1,
             taskQue := [0], taskSize := 1\<rparr>,
           \<lparr>Tasks = [\<lparr>run = answer_body, result = Some 1\<rparr>],
            Results = [Result_init True, Result_init True], generateId = 1, user = 0\<rparr>)
   \<and> length (taskQue cached_pool) < size_t (taskQueMaxThreshold cached_pool)
   \<and> started [NotifyAll notEmpty, ThreadStart 0] = [0]
   \<and> idleThreadSize cached_pool < INT_MAX
   \<and> curThreadSize cached_pool \<le> threadSizeThreshold cached_pool
   \<and> ThreadPool_typed ThreadPool_init
   \<and> submitTask ThreadPool_init attached_memory (Some 0)
       = Returns ([NotifyAll notEmpty], 1, ThreadPool_init\<lparr>taskQue := [0], taskSize := 1\<rparr>,
           \<lparr>Tasks = [\<lparr>run = answer_body, result = Some 1\<rparr>],
            Results = [Result_init True, Result_init True], generateId = 0, user = 0\<rparr>)
   \<and> length (taskQue ThreadPool_init) < size_t (taskQueMaxThreshold ThreadPool_init)
   \<and> started [NotifyAll notEmpty] = []
   \<and> ThreadPool_typed full_pool
   \<and> submitTask full_pool attached_memory (Some 0)
       = Returns ([Cerr ''Task queue is full, submit task failed!''], 1, full_pool,
                  attached_memory\<lparr>Results := [Result_init True, Result_init False]\<rparr>)
   \<and> \<not> length (taskQue full_pool) < size_t (taskQueMaxThreshold full_pool)"
  using submitTask_grows_by_one_worker [of cached_pool attached_memory "Some 0"
      "[NotifyAll notEmpty, ThreadStart 0]" 1
      "cached_pool\<lparr>threads := [0 \<mapsto> \<lparr>threadId = 0\<rparr>], curThreadSize := 1, idleThreadSize := 1,
             taskQue := [0], taskSize := 1\<rparr>"
      "\<lparr>Tasks = [\<lparr>run = answer_body, result = Some 1\<rparr>],
            Results = [Result_init True, Result_init True], generateId = 1, user = 0\<rparr>"]
    submitTask_grows_by_one_worker [of ThreadPool_init attached_memory "Some 0"
      "[NotifyAll notEmpty]" 1 "ThreadPool_init\<lparr>taskQue := [0], taskSize := 1\<rparr>"
      "\<lparr>Tasks = [\<lparr>run = answer_body, result = Some 1\<rparr>],
            Results = [Result_init True, Result_init True], generateId = 0, user = 0\<rparr>"]
    submitTask_grows_by_one_worker [of full_pool attached_memory "Some 0"
      "[Cerr ''Task queue is full, submit task failed!'']" 1 full_pool
      "attached_memory\<lparr>Results := [Result_init True, Result_init False]\<rparr>"]
  by (simp add: ThreadPool_typed_def is_int_def INT_MIN_def INT_MAX_def cached_pool_def
        full_pool_def ThreadPool_init_def attached_memory_def submitTask_def createThread_def
        emplace_def new_Result_def Task_setResult_def int32_def size_t_def
        THREAD_MAX_THRESHOLD_def TASK_MAX_THRESHOLD_def)

subsection \<open>Configuration\<close>

text \<open>
  Claim C5. Each setter called on a running pool, each threshold setter called
  with an argument outside 1 up to its ceiling, and \<^verbatim>\<open>setThreadSizeThreshold\<close> called
  in a mode other than \<^verbatim>\<open>MODE_CACHED\<close> writes one diagnostic and leaves the pool
  unchanged; in every other case the setter writes nothing and stores exactly
  its argument in its member, changing no other.
\<close>

theorem setters_reject_or_store:
  "(isPoolRunning p \<longrightarrow>
       setMode p mode = ([Cerr ''ThreadPool is running, cannot set mode!''], p)
     \<and> setTaskQueMaxThreshold p n
         = ([Cerr ''ThreadPool is running, cannot set task queue max threshold!''], p)
     \<and> setThreadSizeThreshold p n
         = ([Cerr ''ThreadPool is running, cannot set thread size threshold!''], p))
   \<and> (\<not> isPoolRunning p \<and> \<not> (1 \<le> n \<and> n \<le> TASK_MAX_THRESHOLD) \<longrightarrow>
         setTaskQueMaxThreshold p n = ([Cerr ''Invalid task queue max threshold!''], p))
   \<and> (\<not> isPoolRunning p \<and> poolMode p \<noteq> MODE_CACHED \<longrightarrow>
         setThreadSizeThreshold p n
           = ([Cerr ''Thread size threshold can only be set in cached mode!''], p))
   \<and> (\<not> isPoolRunning p \<and> poolMode p = MODE_CACHED
         \<and> \<not> (1 \<le> n \<and> n \<le> THREAD_MAX_THRESHOLD) \<longrightarrow>
         setThreadSizeThreshold p n = ([Cerr ''Invalid thread size threshold!''], p))
   \<and> (\<not> isPoolRunning p \<longrightarrow> setMode p mode = ([], p\<lparr>poolMode := mode\<rparr>))
   \<and> (\<not> isPoolRunning p \<and> 1 \<le> n \<and> n \<le> TASK_MAX_THRESHOLD \<longrightarrow>
         setTaskQueMaxThreshold p n = ([], p\<lparr>taskQueMaxThreshold := n\<rparr>))
   \<and> (\<not> isPoolRunning p \<and> poolMode p = MODE_CACHED \<and> 1 \<le> n \<and> n \<le> THREAD_MAX_THRESHOLD \<longrightarrow>
         setThreadSizeThreshold p n = ([], p\<lparr>threadSizeThreshold := n\<rparr>))"
  by (auto simp: setMode_def setTaskQueMaxThreshold_def setThreadSizeThreshold_def
        checkRunningState_def)

theorem setters_reject_or_store_witness:
  "isPoolRunning (ThreadPool_init\<lparr>isPoolRunning := True\<rparr>)
   \<and> snd (setMode (ThreadPool_init\<lparr>isPoolRunning := True\<rparr>) MODE_CACHED)
       = ThreadPool_init\<lparr>isPoolRunning := True\<rparr>
   \<and> \<not> isPoolRunning ThreadPool_init \<and> \<not> (1 \<le> (0::int) \<and> (0::int) \<le> TASK_MAX_THRESHOLD)
   \<and> snd (setTaskQueMaxThreshold ThreadPool_init 0) = ThreadPool_init
   \<and> poolMode ThreadPool_init \<noteq> MODE_CACHED
   \<and> snd (setThreadSizeThreshold ThreadPool_init 8) = ThreadPool_init
   \<and> \<not> isPoolRunning cached_pool \<and> poolMode cached_pool = MODE_CACHED
   \<and> \<not> (1 \<le> (1025::int) \<and> (1025::int) \<le> THREAD_MAX_THRESHOLD)
   \<and> snd (setThreadSizeThreshold cached_pool 1025) = cached_pool
   \<and> poolMode (snd (setMode ThreadPool_init MODE_CACHED)) = MODE_CACHED
   \<and> (1::int) \<le> 5 \<and> (5::int) \<le> TASK_MAX_THRESHOLD
   \<and> taskQueMaxThreshold (snd (setTaskQueMaxThreshold ThreadPool_init 5)) = 5
   \<and> (1::int) \<le> 16 \<and> (16::int) \<le> THREAD_MAX_THRESHOLD
   \<and> threadSizeThreshold (snd (setThreadSizeThreshold cached_pool 16)) = 16"
  using setters_reject_or_store [of "ThreadPool_init\<lparr>isPoolRunning := True\<rparr>" MODE_CACHED 0]
    setters_reject_or_store [of ThreadPool_init MODE_CACHED 0]
    setters_reject_or_store [of ThreadPool_init MODE_CACHED 8]
    setters_reject_or_store [of cached_pool MODE_CACHED 1025]
    setters_reject_or_store [of ThreadPool_init MODE_CACHED 5]
    setters_reject_or_store [of cached_pool MODE_CACHED 16]
  by (simp add: ThreadPool_init_def cached_pool_def TASK_MAX_THRESHOLD_def
        THREAD_MAX_THRESHOLD_def)

subsection \<open>The loops of \<^verbatim>\<open>start\<close>\<close>

lemma start_create_Returns:
  "start_create p m i = Returns (p', m') \<Longrightarrow> 0 \<le> i \<Longrightarrow> i \<le> INT_MAX \<Longrightarrow>
     initThreadSize p \<le> nat INT_MAX \<and> (\<exists>th. p' = p\<lparr>threads := th\<rparr>)"
proof (induction p m i rule: start_create.induct)
  case (1 p m i)
  show ?case
  proof (cases "size_t i < initThreadSize p")
    case True
    with "1.prems"(1) have ok: "\<not> (INT_MAX \<le> generateId m \<or> INT_MAX \<le> i)"
      unfolding start_create.simps [of p m i] by (auto split: if_splits)
    with True "1.prems"(1) have rec: "start_create
        (p\<lparr>threads := emplace (threads p) (generateId m) \<lparr>threadId = generateId m\<rparr>\<rparr>)
        (m\<lparr>generateId := generateId m + 1\<rparr>) (i + 1) = Returns (p', m')"
      unfolding start_create.simps [of p m i] by (auto split: if_splits)
    from ok "1.prems" have "0 \<le> i + 1" "i + 1 \<le> INT_MAX"
      by auto
    from "1.IH" [OF True ok rec this] show ?thesis
      by auto
  next
    case False
    with "1.prems"(1) have "p' = p"
      unfolding start_create.simps [of p m i] by auto
    moreover from False "1.prems" have "initThreadSize p \<le> nat INT_MAX"
      by (simp add: size_t_pos)
    ultimately show ?thesis
      by (auto intro: exI [of _ "threads p"])
  qed
qed

lemma start_launch_Returns:
  "start_launch p ev i = Returns (ev', p') \<Longrightarrow>
     \<exists>x. p' = p\<lparr>idleThreadSize := x\<rparr> \<and> (is_int (idleThreadSize p) \<longrightarrow> is_int x)"
proof (induction p ev i rule: start_launch.induct)
  case (1 p ev i)
  show ?case
  proof (cases "size_t i < initThreadSize p")
    case True
    with "1.prems" obtain th where th: "threads p i = Some th"
      unfolding start_launch.simps [of p ev i] by (auto split: option.splits)
    with True "1.prems" have ok: "\<not> INT_MAX \<le> i"
      unfolding start_launch.simps [of p ev i] by (auto split: if_splits)
    with True th "1.prems" have rec: "start_launch
        (p\<lparr>idleThreadSize := int32 (idleThreadSize p + 1)\<rparr>)
        (ev @ [ThreadStart (threadId th)]) (i + 1) = Returns (ev', p')"
      unfolding start_launch.simps [of p ev i] by auto
    from "1.IH" [OF True th ok rec] show ?thesis
      by (auto simp: is_int_int32)
  next
    case False
    with "1.prems" have "p' = p"
      unfolding start_launch.simps [of p ev i] by auto
    then show ?thesis
      by (auto intro: exI [of _ "idleThreadSize p"])
  qed
qed



subsection \<open>What a section returns, case by case\<close>



lemma submitTask_Returns:
  assumes "submitTask p m sp = Returns (ev, res, p', m')"
  shows "(\<not> length (taskQue p) < size_t (taskQueMaxThreshold p) \<and> p' = p
            \<and> \<not> isValid (Results m' ! res))
       \<or> (length (taskQue p) < size_t (taskQueMaxThreshold p) \<and> isValid (Results m' ! res)
            \<and> (\<exists>t th c i. sp = Some t
                 \<and> p' = p\<lparr>taskQue := taskQue p @ [t], taskSize := int32 (taskSize p + 1),
                           threads := th, curThreadSize := c, idleThreadSize := i\<rparr>
                 \<and> (c = curThreadSize p \<and> i = idleThreadSize p
                      \<or> poolMode p = MODE_CACHED \<and> curThreadSize p < threadSizeThreshold p
                        \<and> c = int32 (curThreadSize p + 1) \<and> i = int32 (idleThreadSize p + 1))))"
proof (cases "length (taskQue p) < size_t (taskQueMaxThreshold p)")
  case False
  with assms show ?thesis
    by (auto simp: submitTask_def new_Result_def Result_init_def)
next
  case adm: True
  from submitTask_admitted [OF adm assms] obtain t ev1 m1 where
      sp: "sp = Some t"
      and br: "if poolMode p = MODE_CACHED \<and> int32 (taskSize p + 1) > idleThreadSize p
              \<and> curThreadSize p < threadSizeThreshold p
          then createThread (p\<lparr>taskQue := taskQue p @ [t], taskSize := int32 (taskSize p + 1)\<rparr>) m
                 = Returns (ev1, p', m1)
          else ev1 = [] \<and> m1 = m
             \<and> p' = p\<lparr>taskQue := taskQue p @ [t], taskSize := int32 (taskSize p + 1)\<rparr>"
      and res: "res = length (Results m1)"
      and m': "m' = Task_setResult (new_Result m1 True) t (Some (length (Results m1)))"
    by blast
  have valid: "isValid (Results m' ! res)"
    unfolding m' res by (simp add: Task_setResult_def new_Result_def Result_init_def)
  show ?thesis
  proof (cases "poolMode p = MODE_CACHED \<and> int32 (taskSize p + 1) > idleThreadSize p
              \<and> curThreadSize p < threadSizeThreshold p")
    case g: True
    with br have c: "createThread
        (p\<lparr>taskQue := taskQue p @ [t], taskSize := int32 (taskSize p + 1)\<rparr>) m
          = Returns (ev1, p', m1)"
      by simp
    from createThread_Returns [OF c]
    have p': "p' = p\<lparr>taskQue := taskQue p @ [t], taskSize := int32 (taskSize p + 1),
        threads := emplace (threads p) (generateId m) \<lparr>threadId = generateId m\<rparr>,
        curThreadSize := int32 (curThreadSize p + 1),
        idleThreadSize := int32 (idleThreadSize p + 1)\<rparr>"
      by simp
    show ?thesis
      using adm valid sp g p' by blast
  next
    case False
    with br have "p' = p\<lparr>taskQue := taskQue p @ [t], taskSize := int32 (taskSize p + 1),
        threads := threads p, curThreadSize := curThreadSize p,
        idleThreadSize := idleThreadSize p\<rparr>"
      by simp
    then show ?thesis
      using adm valid sp by blast
  qed
qed

lemma threadFunc_Returns:
  assumes "threadFunc p m tid w st now = Returns (ev, p', m', w')"
  shows "(pc w = Fetching \<and> (\<exists>t rest. taskQue p = t # rest \<and> pc w' = Executing t
            \<and> p' = p\<lparr>idleThreadSize := int32 (idleThreadSize p - 1), taskQue := rest,
                      taskSize := int32 (taskSize p - 1)\<rparr>))
       \<or> (pc w = Fetching \<and> taskQue p = [] \<and> \<not> isPoolRunning p \<and> pc w' = Exited_shutdown
            \<and> p' = p\<lparr>threads := (threads p)(tid := None),
                      curThreadSize := int32 (curThreadSize p - 1)\<rparr>)
       \<or> (pc w = Fetching \<and> taskQue p = [] \<and> isPoolRunning p \<and> p' = p
            \<and> (if poolMode p = MODE_CACHED then pc w' = In_wait_for else pc w' = In_wait))
       \<or> (pc w = In_wait_for \<and> pc w' = Exited_idle \<and> st = timeout
            \<and> duration_cast_seconds (now - lastTime w) > THREAD_MAX_IDLE_TIME
            \<and> size_t (curThreadSize p) > initThreadSize p
            \<and> p' = p\<lparr>threads := (threads p)(tid := None),
                      curThreadSize := int32 (curThreadSize p - 1),
                      idleThreadSize := int32 (idleThreadSize p - 1)\<rparr>)
       \<or> (pc w = Executed \<and> pc w' = Fetching
            \<and> p' = p\<lparr>idleThreadSize := int32 (idleThreadSize p + 1)\<rparr>)
       \<or> (pc w \<noteq> Fetching \<and> p' = p \<and> pc w' \<noteq> In_wait_for \<and> pc w' \<noteq> Exited_idle
            \<and> (\<forall>t. pc w' = Executing t \<longrightarrow> pc w = Executing t)
            \<or> pc w = Exited_idle \<and> pc w' = Exited_idle \<and> p' = p)"
  using assms
  by (cases "pc w")
     (auto simp: threadFunc_def split: list.splits if_splits outcome.splits)

subsection \<open>The invariant of the queue\<close>

lemma sys_step_threadFunc:
  assumes "sys_step s (Step_threadFunc k st now) = Returns s'"
  shows "s' = s
       \<or> (k < length (workers s)
          \<and> (\<exists>ev p' m' w'.
                threadFunc (pool s) (mem s) (fst (workers s ! k)) (snd (workers s ! k)) st now
                  = Returns (ev, p', m', w')
              \<and> s' = s\<lparr>pool := p', mem := m',
                        workers := (workers s)[k := (fst (workers s ! k), w')],
                        taken := taken s @
                          (case pc w' of
                             Executing t \<Rightarrow>
                               if pc (snd (workers s ! k)) = Fetching then [t] else []
                           | _ \<Rightarrow> [])\<rparr>))"
  using assms by (auto split: if_splits outcome.splits)

lemma sys_step_submitTask:
  assumes "sys_step s (Call_submitTask sp) = Returns s'"
  shows "\<not> destroyed s \<and> (\<exists>ev res p' m'.
            submitTask (pool s) (mem s) sp = Returns (ev, res, p', m')
          \<and> s' = s\<lparr>pool := p', mem := m', workers := spawn ev (workers s),
                    admitted := admitted s @
                      (case sp of
                         None \<Rightarrow> []
                       | Some t \<Rightarrow> if isValid (Results m' ! res) then [t] else [])\<rparr>)"
  using assms by (auto split: if_splits outcome.splits)

lemma sys_step_start:
  assumes "sys_step s (Call_start n) = Returns s'"
  shows "\<not> destroyed s \<and> (\<exists>ev p' m'.
            start (pool s) (mem s) n = Returns (ev, p', m')
          \<and> s' = s\<lparr>pool := p', mem := m', workers := spawn ev (workers s)\<rparr>)"
  using assms by (auto split: if_splits outcome.splits)

lemma int32_dec: "0 < i \<Longrightarrow> i \<le> INT_MAX \<Longrightarrow> int32 (i - 1) = i - 1"
  by (simp add: int32_def INT_MAX_def)

lemma int32_len: "1 + int n \<le> INT_MAX \<Longrightarrow> int32 (int n) = int n"
  by (simp add: int32_def INT_MAX_def)

lemma int32_inc: "0 \<le> i \<Longrightarrow> i < INT_MAX \<Longrightarrow> int32 (i + 1) = i + 1"
  by (simp add: int32_def INT_MAX_def)

lemma queue_inv_threadFunc:
  assumes inv: "queue_inv s"
    and st: "sys_step s (Step_threadFunc k st now) = Returns s'"
  shows "queue_inv s'"
proof -
  from sys_step_threadFunc [OF st] show ?thesis
  proof (elim disjE conjE exE)
    assume "s' = s"
    with inv show ?thesis by simp
  next
    fix ev p' m' w'
    assume tf: "threadFunc (pool s) (mem s) (fst (workers s ! k)) (snd (workers s ! k)) st now
                  = Returns (ev, p', m', w')"
      and s': "s' = s\<lparr>pool := p', mem := m',
                        workers := (workers s)[k := (fst (workers s ! k), w')],
                        taken := taken s @
                          (case pc w' of
                             Executing t \<Rightarrow>
                               if pc (snd (workers s ! k)) = Fetching then [t] else []
                           | _ \<Rightarrow> [])\<rparr>"
    from threadFunc_Returns [OF tf] inv show ?thesis
      unfolding s'
      by (elim disjE conjE exE)
         (auto simp: queue_inv_def int32_len split: pc.splits if_splits)
  qed
qed

lemma queue_inv_submitTask:
  assumes inv: "queue_inv s"
    and st: "sys_step s (Call_submitTask sp) = Returns s'"
  shows "queue_inv s'"
proof -
  from sys_step_submitTask [OF st] obtain ev res p' m' where
      sub: "submitTask (pool s) (mem s) sp = Returns (ev, res, p', m')"
      and s': "s' = s\<lparr>pool := p', mem := m', workers := spawn ev (workers s),
                    admitted := admitted s @
                      (case sp of
                         None \<Rightarrow> []
                       | Some t \<Rightarrow> if isValid (Results m' ! res) then [t] else [])\<rparr>"
    by blast
  show ?thesis
  proof (cases "length (taskQue (pool s)) < size_t (taskQueMaxThreshold (pool s))")
    case False
    with submitTask_Returns [OF sub] have "p' = pool s" "\<not> isValid (Results m' ! res)"
      by blast+
    with inv show ?thesis
      unfolding s' by (auto simp: queue_inv_def split: option.splits)
  next
    case adm: True
    with submitTask_Returns [OF sub] obtain t th c i where
        v: "isValid (Results m' ! res)" and sp: "sp = Some t"
        and p': "p' = (pool s)\<lparr>taskQue := taskQue (pool s) @ [t],
                 taskSize := int32 (taskSize (pool s) + 1),
                 threads := th, curThreadSize := c, idleThreadSize := i\<rparr>"
      by blast
    from inv have "size_t (taskQueMaxThreshold (pool s)) = nat (taskQueMaxThreshold (pool s))"
      by (simp add: queue_inv_def size_t_pos)
    with adm inv have lt: "taskSize (pool s) < INT_MAX" "0 \<le> taskSize (pool s)"
      by (auto simp: queue_inv_def)
    then have "int32 (taskSize (pool s) + 1) = taskSize (pool s) + 1"
      by (simp add: int32_inc)
    with inv lt v sp show ?thesis
      unfolding s' p' by (auto simp: queue_inv_def)
  qed
qed

lemma queue_inv_start:
  assumes inv: "queue_inv s"
    and st: "sys_step s (Call_start n) = Returns s'"
  shows "queue_inv s'"
proof -
  from sys_step_start [OF st] obtain ev p' m' where
      sta: "start (pool s) (mem s) n = Returns (ev, p', m')"
      and s': "s' = s\<lparr>pool := p', mem := m', workers := spawn ev (workers s)\<rparr>"
    by blast
  from sta obtain p1 where
      c: "start_create ((pool s)\<lparr>isPoolRunning := True, initThreadSize := size_t n,
             curThreadSize := n\<rparr>) (mem s) 0 = Returns (p1, m')"
      and l: "start_launch p1 [] 0 = Returns (ev, p')"
    by (auto simp: start_def split: outcome.splits)
  from start_create_Returns [OF c] obtain th where
      p1: "p1 = (pool s)\<lparr>isPoolRunning := True, initThreadSize := size_t n,
             curThreadSize := n, threads := th\<rparr>"
    by (auto simp: INT_MAX_def)
  from start_launch_Returns [OF l] obtain x where p': "p' = p1\<lparr>idleThreadSize := x\<rparr>"
    by blast
  from inv show ?thesis
    unfolding s' p' p1 by (simp add: queue_inv_def)
qed

lemma queue_inv_step:
  assumes "queue_inv s" and "sys_step s c = Returns s'"
  shows "queue_inv s'"
proof (cases c)
  case (Call_setMode mode)
  with assms show ?thesis
    by (auto simp: queue_inv_def setMode_def split: if_splits)
next
  case (Call_setTaskQueMaxThreshold threshold)
  with assms show ?thesis
    by (auto simp: queue_inv_def setTaskQueMaxThreshold_def TASK_MAX_THRESHOLD_def INT_MAX_def
          split: if_splits)
next
  case (Call_setThreadSizeThreshold threshold)
  with assms show ?thesis
    by (auto simp: queue_inv_def setThreadSizeThreshold_def split: if_splits)
next
  case (Call_start n)
  with assms show ?thesis by (auto intro: queue_inv_start)
next
  case (Call_submitTask sp)
  with assms show ?thesis by (auto intro: queue_inv_submitTask)
next
  case Call_destructor
  with assms show ?thesis
    by (auto simp: queue_inv_def destructor_begin_def split: if_splits)
next
  case (Step_threadFunc k st now)
  with assms show ?thesis by (auto intro: queue_inv_threadFunc)
qed

lemma queue_inv_calls:
  "queue_inv s \<Longrightarrow> sys_calls s cs = Returns s' \<Longrightarrow> queue_inv s'"
proof (induction cs arbitrary: s)
  case Nil
  then show ?case by simp
next
  case (Cons c cs)
  show ?case
  proof (cases "sys_step s c")
    case (Returns s1)
    with Cons.prems have "queue_inv s1" and "sys_calls s1 cs = Returns s'"
      by (auto intro: queue_inv_step)
    then show ?thesis by (rule Cons.IH)
  next
    case Blocks
    with Cons.prems have "sys_calls s cs = Returns s'" by simp
    with Cons.prems(1) show ?thesis by (rule Cons.IH)
  next
    case Undefined_Behaviour
    with Cons.prems show ?thesis by simp
  qed
qed

lemma queue_inv_init: "queue_inv (sys_init m)"
  by (simp add: queue_inv_def sys_init_def ThreadPool_init_def TASK_MAX_THRESHOLD_def INT_MAX_def)

subsection \<open>The invariant of the census\<close>








subsection \<open>Idle time\<close>


subsection \<open>The example histories\<close>

lemmas eval_defs =
  sys_init_def ThreadPool_init_def attached_memory_def
  setMode_def setTaskQueMaxThreshold_def setThreadSizeThreshold_def checkRunningState_def
  submitTask_def createThread_def emplace_def new_Result_def Task_setResult_def
  start_def start_create.simps start_launch.simps threadFunc_def Task_exec_def
  Result_setVal_def Semaphore_post_def Result_init_def Semaphore_init_def answer_body_def
  int32_def size_t_def INT_MAX_def INT_MIN_def TASK_MAX_THRESHOLD_def THREAD_MAX_THRESHOLD_def
  THREAD_MAX_IDLE_TIME_def ticks_per_second_def duration_cast_seconds_def
  signed_divide_int_def is_int_def

subsection \<open>Queue and workers along the histories\<close>

text \<open>
  Claim C9. After every history from the constructor, \<^verbatim>\<open>taskSize_\<close> is the number of
  tasks in \<^verbatim>\<open>taskQue_\<close>; and every further section (a setter, \<^verbatim>\<open>start\<close>, a \<^verbatim>\<open>submitTask\<close>
  admitted or rejected, the destructor, a section of a worker) changes the counter
  and the length of the queue by the same amount.
\<close>

theorem taskSize_equals_queue_length:
  assumes "sys_calls (sys_init m0) cs = Returns s"
  shows "taskSize (pool s) = int (length (taskQue (pool s)))
    \<and> (\<forall>c s'. sys_step s c = Returns s' \<longrightarrow>
          taskSize (pool s') = int (length (taskQue (pool s')))
          \<and> taskSize (pool s') - taskSize (pool s)
              = int (length (taskQue (pool s'))) - int (length (taskQue (pool s))))"
proof -
  have inv: "queue_inv s"
    using queue_inv_init assms by (rule queue_inv_calls)
  then have "queue_inv s'" if "sys_step s c = Returns s'" for c s'
    using that by (rule queue_inv_step)
  with inv show ?thesis
    by (simp add: queue_inv_def)
qed

theorem taskSize_equals_queue_length_witness:
  "sys_calls (sys_init attached_memory) history_full = Returns state_full
   \<and> taskSize (pool state_full) = int (length (taskQue (pool state_full)))
   \<and> sys_step state_full (Step_threadFunc 0 no_timeout 6)
       = Returns (state_full\<lparr>pool := (pool state_full)\<lparr>idleThreadSize := 0, taskQue := [],
                                  taskSize := 0\<rparr>,
                    workers := [(0, \<lparr>pc = Executing 0, lastTime = 5\<rparr>)], taken := [0]\<rparr>)
   \<and> taskSize (pool (state_full\<lparr>pool := (pool state_full)\<lparr>idleThreadSize := 0,
                                  taskQue := [], taskSize := 0\<rparr>,
                    workers := [(0, \<lparr>pc = Executing 0, lastTime = 5\<rparr>)], taken := [0]\<rparr>)) = 0"
proof -
  have run: "sys_calls (sys_init attached_memory) history_full = Returns state_full"
    by (simp add: history_full_def state_full_def eval_defs)
  have step: "sys_step state_full (Step_threadFunc 0 no_timeout 6)
       = Returns (state_full\<lparr>pool := (pool state_full)\<lparr>idleThreadSize := 0, taskQue := [],
                                  taskSize := 0\<rparr>,
                    workers := [(0, \<lparr>pc = Executing 0, lastTime = 5\<rparr>)], taken := [0]\<rparr>)"
    by (simp add: state_full_def eval_defs)
  from taskSize_equals_queue_length [OF run]
  have "taskSize (pool state_full) = int (length (taskQue (pool state_full)))"
    by (rule conjunct1)
  with run step show ?thesis
    by simp
qed

text \<open>
  Claim C8. After every history, a worker that tests a queue that is not empty
  takes its front element and leaves the rest, decrements \<^verbatim>\<open>taskSize_\<close> by one (to the
  length of the rest), broadcasts \<^verbatim>\<open>notEmpty_\<close> exactly when the rest is not empty
  and then \<^verbatim>\<open>notFull_\<close>, once. The task it takes is the oldest admitted one not yet
  taken: the tasks admitted are the tasks taken followed by the queue, and an
  admitted submission appends to the queue.
\<close>

theorem worker_pop_is_fifo:
  assumes "sys_calls (sys_init m0) cs = Returns s"
    and "pc w = Fetching"
    and "taskQue (pool s) = t # rest"
  shows "(\<exists>p'. threadFunc (pool s) (mem s) tid w st now
            = Returns ((if rest = [] then [] else [NotifyAll notEmpty]) @ [NotifyAll notFull],
                       p', mem s, w\<lparr>pc := Executing t\<rparr>)
          \<and> taskQue p' = rest
          \<and> taskSize p' = taskSize (pool s) - 1
          \<and> taskSize p' = int (length (taskQue p')))
    \<and> admitted s = taken s @ t # rest
    \<and> (\<forall>t' ev res p' m'.
          submitTask (pool s) (mem s) (Some t') = Returns (ev, res, p', m')
          \<and> isValid (Results m' ! res) \<longrightarrow> taskQue p' = t # rest @ [t'])"
proof -
  have inv: "queue_inv s"
    using queue_inv_init assms(1) by (rule queue_inv_calls)
  with assms(3) have "int32 (taskSize (pool s) - 1) = taskSize (pool s) - 1"
    by (intro int32_dec) (simp_all add: queue_inv_def)
  with assms(2,3) inv have pop: "\<exists>p'. threadFunc (pool s) (mem s) tid w st now
            = Returns ((if rest = [] then [] else [NotifyAll notEmpty]) @ [NotifyAll notFull],
                       p', mem s, w\<lparr>pc := Executing t\<rparr>)
          \<and> taskQue p' = rest
          \<and> taskSize p' = taskSize (pool s) - 1
          \<and> taskSize p' = int (length (taskQue p'))"
    by (simp add: threadFunc_def queue_inv_def)
  have push: "taskQue p' = t # rest @ [t']"
    if "submitTask (pool s) (mem s) (Some t') = Returns (ev, res, p', m')"
      and "isValid (Results m' ! res)" for t' ev res p' m'
    using submitTask_Returns [OF that(1)] that(2) assms(3) by auto
  from inv assms(3) have "admitted s = taken s @ t # rest"
    by (simp add: queue_inv_def)
  with pop push show ?thesis
    by blast
qed

theorem worker_pop_is_fifo_witness:
  "sys_calls (sys_init attached_memory) history_open = Returns state_open
   \<and> pc \<lparr>pc = Fetching, lastTime = 5\<rparr> = Fetching
   \<and> taskQue (pool state_open) = [0, 0]
   \<and> threadFunc (pool state_open) (mem state_open) 0 \<lparr>pc = Fetching, lastTime = 5\<rparr>
         no_timeout 6
       = Returns ([NotifyAll notEmpty, NotifyAll notFull],
                  (pool state_open)\<lparr>idleThreadSize := 0, taskQue := [0], taskSize := 1\<rparr>,
                  mem state_open, \<lparr>pc = Executing 0, lastTime = 5\<rparr>)
   \<and> admitted state_open = taken state_open @ [0, 0]
   \<and> submitTask (pool state_open) (mem state_open) (Some 0)
       = Returns ([NotifyAll notEmpty], 3,
                  (pool state_open)\<lparr>taskQue := [0, 0, 0], taskSize := 3\<rparr>,
                  \<lparr>Tasks = [\<lparr>run = answer_body, result = Some 3\<rparr>],
                   Results = [Result_init True, Result_init True, Result_init True,
                              Result_init True],
                   generateId = 1, user = 0\<rparr>)"
proof -
  have run: "sys_calls (sys_init attached_memory) history_open = Returns state_open"
    by (simp add: history_open_def state_open_def eval_defs)
  have w: "pc \<lparr>pc = Fetching, lastTime = 5\<rparr> = Fetching"
    by simp
  have q: "taskQue (pool state_open) = [0, 0]"
    by (simp add: state_open_def)
  have pop: "threadFunc (pool state_open) (mem state_open) 0 \<lparr>pc = Fetching, lastTime = 5\<rparr>
         no_timeout 6
       = Returns ([NotifyAll notEmpty, NotifyAll notFull],
                  (pool state_open)\<lparr>idleThreadSize := 0, taskQue := [0], taskSize := 1\<rparr>,
                  mem state_open, \<lparr>pc = Executing 0, lastTime = 5\<rparr>)"
    by (simp add: state_open_def eval_defs)
  have push: "submitTask (pool state_open) (mem state_open) (Some 0)
       = Returns ([NotifyAll notEmpty], 3,
                  (pool state_open)\<lparr>taskQue := [0, 0, 0], taskSize := 3\<rparr>,
                  \<lparr>Tasks = [\<lparr>run = answer_body, result = Some 3\<rparr>],
                   Results = [Result_init True, Result_init True, Result_init True,
                              Result_init True],
                   generateId = 1, user = 0\<rparr>)"
    by (simp add: state_open_def eval_defs)
  from worker_pop_is_fifo [OF run w q, of 0 no_timeout 6]
  have "admitted state_open = taken state_open @ [0, 0]"
    by blast
  with run w q pop push show ?thesis
    by simp
qed



end
